theory Spec2Isabelle
  imports Complex_Main
begin

section \<open>Python values, dictionaries and exceptions\<close>

text \<open>
  The two scripts exchange their data as JSON: lists of dictionaries whose values are
  strings, numbers or \<open>None\<close>. A dictionary is a finite map from key strings to values.
  A Python \<open>str\<close> is a list of characters; one \<open>char\<close> stands for one character of
  the text (a code point below 256), so that \<open>length\<close> is Python's \<open>len\<close>.
\<close>

datatype pyval =
    PNone
  | PBool bool
  | PInt int
  | PFloat rat
  | PStr string
  | PList "pyval list"
  | PDict "(string \<times> pyval) list"

type_synonym item = "string \<rightharpoonup> pyval"

text \<open>The exceptions that the interpreter raises in the chunker.\<close>

datatype py_error =
    KeyError string
  | AttributeError
  | TypeError
  | IndexError

text \<open>\<open>d[k]\<close>: a missing key raises \<open>KeyError\<close>.\<close>

definition getitem :: "item \<Rightarrow> string \<Rightarrow> py_error + pyval" where
  "getitem d k = (case d k of None \<Rightarrow> Inl (KeyError k) | Some v \<Rightarrow> Inr v)"

text \<open>
  \<open>str.isspace\<close> on one character: the whitespace code points below 256 are
  tab to carriage return (9-13), the separators 28-31, space (32), NEL (133) and the
  no-break space (160).
\<close>

definition isspace :: "char \<Rightarrow> bool" where
  "isspace c = ((of_char c :: nat) \<in> {9, 10, 11, 12, 13, 28, 29, 30, 31, 32, 133, 160})"

text \<open>\<open>s.strip()\<close>: leading and trailing whitespace removed.\<close>

definition strip :: "string \<Rightarrow> string" where
  "strip s = rev (dropWhile isspace (rev (dropWhile isspace s)))"

text \<open>\<open>v.strip()\<close> on a value: only a string has the method.\<close>

definition py_strip :: "pyval \<Rightarrow> py_error + string" where
  "py_strip v = (case v of PStr s \<Rightarrow> Inr (strip s) | _ \<Rightarrow> Inl AttributeError)"

text \<open>\<open>sep.join(xs)\<close> on strings.\<close>

fun str_join :: "string \<Rightarrow> string list \<Rightarrow> string" where
  "str_join sep [] = []"
| "str_join sep [s] = s"
| "str_join sep (s # t # ts) = s @ sep @ str_join sep (t # ts)"

text \<open>\<open>sep.join(vs)\<close> on values: an element that is not a string raises \<open>TypeError\<close>.\<close>

fun as_strs :: "pyval list \<Rightarrow> py_error + string list" where
  "as_strs [] = Inr []"
| "as_strs (v # vs) =
     (case v of
        PStr s \<Rightarrow> (case as_strs vs of Inl e \<Rightarrow> Inl e | Inr ss \<Rightarrow> Inr (s # ss))
      | _ \<Rightarrow> Inl TypeError)"

definition py_join :: "string \<Rightarrow> pyval list \<Rightarrow> py_error + string" where
  "py_join sep vs = (case as_strs vs of Inl e \<Rightarrow> Inl e | Inr ss \<Rightarrow> Inr (str_join sep ss))"

text \<open>The list comprehension \<open>[c[k] for c in cs]\<close>: the first missing key raises.\<close>

fun getitems :: "item list \<Rightarrow> string \<Rightarrow> py_error + pyval list" where
  "getitems [] k = Inr []"
| "getitems (c # cs) k =
     (case getitem c k of
        Inl e \<Rightarrow> Inl e
      | Inr v \<Rightarrow> (case getitems cs k of Inl e \<Rightarrow> Inl e | Inr vs \<Rightarrow> Inr (v # vs)))"

section \<open>The semantic chunker (chunk_and_index.py)\<close>

text \<open>
  A chunk is the dictionary literal of lines 36-42 and 51-57, with its five fixed keys
  \<open>id\<close>, \<open>content\<close>, \<open>page\<close>, \<open>type\<close> and \<open>doc_name\<close>.
\<close>

record chunk =
  chunk_id :: string
  chunk_content :: string
  chunk_page :: pyval
  chunk_type :: pyval
  doc_name :: string

text \<open>
  The dictionary literal, built from the accumulator \<open>current_chunk\<close>. Its first argument
  is the value of \<open>str(uuid.uuid4())\<close>. \<open>current_chunk[0]\<close> raises \<open>IndexError\<close> on an
  empty accumulator.
\<close>

definition make_chunk :: "string \<Rightarrow> item list \<Rightarrow> py_error + chunk" where
  "make_chunk uid current_chunk =
     (case getitems current_chunk ''content'' of
        Inl e \<Rightarrow> Inl e
      | Inr vs \<Rightarrow>
     (case py_join ''. '' vs of
        Inl e \<Rightarrow> Inl e
      | Inr text \<Rightarrow>
     (case current_chunk of
        [] \<Rightarrow> Inl IndexError
      | c0 # _ \<Rightarrow>
     (case getitem c0 ''page'' of
        Inl e \<Rightarrow> Inl e
      | Inr p \<Rightarrow>
     (case getitem c0 ''type'' of
        Inl e \<Rightarrow> Inl e
      | Inr t \<Rightarrow>
          Inr \<lparr>chunk_id = uid, chunk_content = text, chunk_page = p, chunk_type = t,
               doc_name = ''support.pdf''\<rparr>)))))"

text \<open>
  The local variables of \<open>semantic_chunking\<close>. \<open>uuid_calls\<close> counts the calls of
  \<open>uuid.uuid4()\<close> made so far: the generator is a parameter \<open>uuid4\<close>, whose value at
  \<open>n\<close> is what the call number \<open>n\<close> returns.
\<close>

record loop_state =
  chunks :: "chunk list"
  current_chunk :: "item list"
  current_length :: int
  uuid_calls :: nat

definition initial_state :: loop_state where
  "initial_state = \<lparr>chunks = [], current_chunk = [], current_length = 0, uuid_calls = 0\<rparr>"

text \<open>The body of the \<open>for\<close> loop, lines 29-47.\<close>

definition chunk_step ::
  "(nat \<Rightarrow> string) \<Rightarrow> int \<Rightarrow> loop_state \<Rightarrow> item \<Rightarrow> py_error + loop_state" where
  "chunk_step uuid4 target_chars st item =
     (case getitem item ''content'' of
        Inl e \<Rightarrow> Inl e
      | Inr v \<Rightarrow>
     (case py_strip v of
        Inl e \<Rightarrow> Inl e
      | Inr text \<Rightarrow>
          if int (length text) < 20 then Inr st
          else
            let text_len = int (length text) in
            if current_length st + text_len > target_chars \<and> current_chunk st \<noteq> [] then
              (case make_chunk (uuid4 (uuid_calls st)) (current_chunk st) of
                 Inl e \<Rightarrow> Inl e
               | Inr c \<Rightarrow>
                   Inr (st\<lparr>chunks := chunks st @ [c],
                           current_chunk := [item],
                           current_length := text_len,
                           uuid_calls := Suc (uuid_calls st)\<rparr>))
            else
              Inr (st\<lparr>current_chunk := current_chunk st @ [item],
                      current_length := current_length st + text_len\<rparr>)))"

text \<open>The \<open>for\<close> loop: an exception in the body ends it.\<close>

fun chunk_loop ::
  "(nat \<Rightarrow> string) \<Rightarrow> int \<Rightarrow> loop_state \<Rightarrow> item list \<Rightarrow> py_error + loop_state" where
  "chunk_loop uuid4 target_chars st [] = Inr st"
| "chunk_loop uuid4 target_chars st (item # rest) =
     (case chunk_step uuid4 target_chars st item of
        Inl e \<Rightarrow> Inl e
      | Inr st' \<Rightarrow> chunk_loop uuid4 target_chars st' rest)"

text \<open>Lines 49-57: the final chunk, when the accumulator is not empty.\<close>

definition final_chunk :: "(nat \<Rightarrow> string) \<Rightarrow> loop_state \<Rightarrow> py_error + chunk list" where
  "final_chunk uuid4 st =
     (if current_chunk st \<noteq> [] then
        (case make_chunk (uuid4 (uuid_calls st)) (current_chunk st) of
           Inl e \<Rightarrow> Inl e
         | Inr c \<Rightarrow> Inr (chunks st @ [c]))
      else Inr (chunks st))"

text \<open>
  \<open>semantic_chunking(raw_chunks, target_chars)\<close>. The two \<open>print\<close> calls write to the
  console only and are left out.
\<close>

definition semantic_chunking ::
  "(nat \<Rightarrow> string) \<Rightarrow> item list \<Rightarrow> int \<Rightarrow> py_error + chunk list" where
  "semantic_chunking uuid4 raw_chunks target_chars =
     (case chunk_loop uuid4 target_chars initial_state raw_chunks of
        Inl e \<Rightarrow> Inl e
      | Inr st \<Rightarrow> final_chunk uuid4 st)"

section \<open>The content normalizer and the extraction stage (ingest.py)\<close>

text \<open>
  An attribute of an object of the service's response that the code reads defensively
  (\<open>hasattr\<close>, \<open>getattr\<close> with a default): it is missing, or it is there with the
  value \<open>None\<close>, or it is there with a value.
\<close>

datatype 'a attr = Absent | IsNone | Has 'a

text \<open>
  The response of the document-analysis service, as far as \<open>analyze_document\<close> reads it.
  An attribute that the code reads directly and guards with \<open>or\<close> (the content of a
  paragraph or line, the cells of a table, the pages) is an option, \<open>None\<close> being Python's
  \<open>None\<close>.
\<close>

record di_paragraph =
  para_content :: "string option"

record di_line =
  line_content :: "string option"
  line_confidence :: "rat attr"

record di_cell =
  row_index :: int
  column_index :: int
  cell_content :: "string attr"

record di_table =
  cells :: "di_cell list option"
  row_count :: "int attr"
  column_count :: "int attr"

record di_word =
  word_content :: string

record di_page =
  page_number :: "int attr"
  paragraphs :: "di_paragraph list attr"
  lines :: "di_line list attr"
  tables :: "di_table list attr"
  words :: "di_word list attr"

record di_result =
  pages :: "di_page list option"

text \<open>\<open>hasattr(page, a) and page.a\<close>: the attribute is there and is a non-empty list.\<close>

definition present :: "'a list attr \<Rightarrow> bool" where
  "present a = (case a of Has xs \<Rightarrow> xs \<noteq> [] | _ \<Rightarrow> False)"

text \<open>\<open>page.a\<close>, read where \<open>present\<close> holds.\<close>

definition attr_list :: "'a list attr \<Rightarrow> 'a list" where
  "attr_list a = (case a of Has xs \<Rightarrow> xs | _ \<Rightarrow> [])"

text \<open>\<open>x or ""\<close> and \<open>x or []\<close>.\<close>

definition or_empty :: "'a list option \<Rightarrow> 'a list" where
  "or_empty a = (case a of None \<Rightarrow> [] | Some xs \<Rightarrow> xs)"

text \<open>
  \<open>getattr(x, a, default)\<close> as a value of a dictionary: the default for a missing
  attribute only; an attribute that is there with the value \<open>None\<close> gives \<open>None\<close>.
\<close>

definition getattr_val :: "('a \<Rightarrow> pyval) \<Rightarrow> pyval \<Rightarrow> 'a attr \<Rightarrow> pyval" where
  "getattr_val wrap dflt a = (case a of Absent \<Rightarrow> dflt | IsNone \<Rightarrow> PNone | Has v \<Rightarrow> wrap v)"

text \<open>
  \<open>getattr(cell, 'content', '')\<close> inside the f-string: \<open>None\<close> is written as the text
  \<open>None\<close>.
\<close>

definition getattr_text :: "string attr \<Rightarrow> string" where
  "getattr_text a = (case a of Absent \<Rightarrow> [] | IsNone \<Rightarrow> ''None'' | Has t \<Rightarrow> t)"

text \<open>An integer in an f-string: its decimal digits.\<close>

definition digit_char :: "nat \<Rightarrow> char" where
  "digit_char d = ''0123456789'' ! d"

fun str_nat :: "nat \<Rightarrow> string" where
  "str_nat n = (if n < 10 then [digit_char n] else str_nat (n div 10) @ [digit_char (n mod 10)])"

declare str_nat.simps [simp del]

definition str_int :: "int \<Rightarrow> string" where
  "str_int i = (if i < 0 then CHR ''-'' # str_nat (nat (- i)) else str_nat (nat i))"

text \<open>The four dictionary literals of \<open>analyze_document\<close> (lines 34, 43, 58 and 69).\<close>

definition paragraph_record :: "pyval \<Rightarrow> di_paragraph \<Rightarrow> item" where
  "paragraph_record page_num para =
     [''type'' \<mapsto> PStr ''paragraph'',
      ''content'' \<mapsto> PStr (or_empty (para_content para)),
      ''page'' \<mapsto> page_num]"

definition line_record :: "pyval \<Rightarrow> di_line \<Rightarrow> item" where
  "line_record page_num line =
     [''type'' \<mapsto> PStr ''line'',
      ''content'' \<mapsto> PStr (or_empty (line_content line)),
      ''page'' \<mapsto> page_num,
      ''confidence'' \<mapsto> getattr_val PFloat (PFloat 0) (line_confidence line)]"

definition cell_text :: "di_cell \<Rightarrow> string" where
  "cell_text cell =
     ''R'' @ str_int (row_index cell) @ ''C'' @ str_int (column_index cell) @ '': '' @
     getattr_text (cell_content cell)"

definition table_record :: "pyval \<Rightarrow> di_table \<Rightarrow> item" where
  "table_record page_num table =
     [''type'' \<mapsto> PStr ''table'',
      ''content'' \<mapsto> PStr (str_join [CHR 0x0A] (map cell_text (or_empty (cells table)))),
      ''page'' \<mapsto> page_num,
      ''rows'' \<mapsto> getattr_val PInt (PInt 0) (row_count table),
      ''cols'' \<mapsto> getattr_val PInt (PInt 0) (column_count table)]"

definition page_text_record :: "pyval \<Rightarrow> di_word list \<Rightarrow> item" where
  "page_text_record page_num ws =
     [''type'' \<mapsto> PStr ''page_text'',
      ''content'' \<mapsto> PStr (str_join '' '' (map word_content ws)),
      ''page'' \<mapsto> page_num]"

text \<open>\<open>getattr(page, 'page_number', 'unknown')\<close>.\<close>

definition page_num_of :: "di_page \<Rightarrow> pyval" where
  "page_num_of page = getattr_val PInt (PStr ''unknown'') (page_number page)"

text \<open>
  The body of the loop over the pages (lines 29-73): what one page appends to \<open>content\<close>.
  There are two conditionals, one after the other: \<open>if\<close> paragraphs \<open>elif\<close> lines
  (lines 32-48), then \<open>if\<close> tables \<open>elif\<close> words (lines 51-73).
\<close>

definition page_records :: "di_page \<Rightarrow> item list" where
  "page_records page =
     (if present (paragraphs page) then
        map (paragraph_record (page_num_of page)) (attr_list (paragraphs page))
      else if present (lines page) then
        map (line_record (page_num_of page)) (attr_list (lines page))
      else [])
     @
     (if present (tables page) then
        map (table_record (page_num_of page)) (attr_list (tables page))
      else if present (words page) then
        [page_text_record (page_num_of page) (attr_list (words page))]
      else [])"

fun analyze_pages :: "item list \<Rightarrow> di_page list \<Rightarrow> item list" where
  "analyze_pages content [] = content"
| "analyze_pages content (page # rest) = analyze_pages (content @ page_records page) rest"

text \<open>
  \<open>analyze_document\<close>, from the service's result on: reading the file and the call of the
  service happen before and are not part of the model.
\<close>

definition analyze_document :: "di_result \<Rightarrow> item list" where
  "analyze_document result = analyze_pages [] (or_empty (pages result))"

text \<open>
  \<open>ingest_file\<close>, from the service's result on: the array that \<open>json.dump\<close> writes to the
  output file (line 96) and the value the function returns (line 104). The upload of the
  blob and the name of the output file are not part of the model.
\<close>

record ingest_outcome =
  json_written :: "item list"
  returned :: "item list"

definition ingest_file :: "di_result \<Rightarrow> ingest_outcome" where
  "ingest_file result =
     (let parsed = analyze_document result in
      \<lparr>json_written = take 500 parsed, returned = parsed\<rparr>)"

section \<open>Index creation (chunk_and_index.py)\<close>

text \<open>
  What a call raises: an exception of class \<open>Exception\<close> (or of a subclass, such as
  \<open>TypeError\<close> or the client's \<open>HttpResponseError\<close>) with \<open>str(e)\<close>, or one that is a
  \<open>BaseException\<close> only (\<open>KeyboardInterrupt\<close>, \<open>SystemExit\<close>), which \<open>except Exception\<close>
  does not catch.
\<close>

datatype raised = Exception string | BaseException string

text \<open>
  The keyword arguments of a \<open>SearchField\<close> call; an argument that is not passed is
  \<open>None\<close>.
\<close>

record field_args =
  field_name :: string
  field_type :: string
  field_key :: "bool option"
  searchable :: "bool option"
  retrievable :: "bool option"
  filterable :: "bool option"
  sortable :: "bool option"

text \<open>
  The search library, which is not part of the repository: what each of its calls does,
  a result or an exception. The objects it builds are its own (type variables).
\<close>

record ('cr, 'cl, 'f, 'i) search_sdk =
  AzureKeyCredential :: "string option \<Rightarrow> raised + 'cr"
  SearchIndexClient :: "string option \<Rightarrow> 'cr \<Rightarrow> raised + 'cl"
  SearchField :: "field_args \<Rightarrow> raised + 'f"
  SearchIndex :: "string \<Rightarrow> 'f list \<Rightarrow> raised + 'i"
  create_or_update_index :: "'cl \<Rightarrow> 'i \<Rightarrow> raised + unit"

definition plain_field :: "string \<Rightarrow> string \<Rightarrow> field_args" where
  "plain_field n t =
     \<lparr>field_name = n, field_type = t, field_key = None, searchable = None, retrievable = None,
      filterable = None, sortable = None\<rparr>"

text \<open>Lines 69-75: the arguments of the five \<open>SearchField\<close> calls.\<close>

definition simple_fields :: "field_args list" where
  "simple_fields =
     [(plain_field ''id'' ''Edm.String'')\<lparr>field_key := Some True\<rparr>,
      (plain_field ''content'' ''Edm.String'')\<lparr>searchable := Some True, retrievable := Some True\<rparr>,
      (plain_field ''page'' ''Edm.Int32'')\<lparr>filterable := Some True, sortable := Some True\<rparr>,
      (plain_field ''type'' ''Edm.String'')\<lparr>filterable := Some True\<rparr>,
      (plain_field ''doc_name'' ''Edm.String'')\<lparr>filterable := Some True\<rparr>]"

text \<open>The list of the fields: the calls are made in order, and the first exception ends it.\<close>

fun search_fields :: "(field_args \<Rightarrow> raised + 'f) \<Rightarrow> field_args list \<Rightarrow> raised + 'f list" where
  "search_fields ctor [] = Inr []"
| "search_fields ctor (a # rest) =
     (case ctor a of
        Inl e \<Rightarrow> Inl e
      | Inr f \<Rightarrow> (case search_fields ctor rest of Inl e \<Rightarrow> Inl e | Inr fs \<Rightarrow> Inr (f # fs)))"

text \<open>
  \<open>create_simple_index\<close>. Its arguments are the library and the two module variables
  \<open>search_endpoint\<close> and \<open>search_key\<close> (\<open>os.getenv\<close> gives \<open>None\<close> for a variable that is
  not set). Lines 64-77, the credential, the client, the fields and the index, run before
  the \<open>try\<close>; only the call of \<open>create_or_update_index\<close> is inside it. The result is
  \<open>Inl\<close> an exception the function lets through, or \<open>Inr\<close> the line it prints (without the
  leading symbol) and the value it returns.
\<close>

definition create_simple_index ::
  "('cr, 'cl, 'f, 'i) search_sdk \<Rightarrow> string option \<Rightarrow> string option \<Rightarrow> raised + (string \<times> bool)"
  where
  "create_simple_index sdk search_endpoint search_key =
     (case AzureKeyCredential sdk search_key of
        Inl e \<Rightarrow> Inl e
      | Inr credential \<Rightarrow>
     (case SearchIndexClient sdk search_endpoint credential of
        Inl e \<Rightarrow> Inl e
      | Inr index_client \<Rightarrow>
     (case search_fields (SearchField sdk) simple_fields of
        Inl e \<Rightarrow> Inl e
      | Inr field_list \<Rightarrow>
     (case SearchIndex sdk ''itpolicy-nist-index'' field_list of
        Inl e \<Rightarrow> Inl e
      | Inr index \<Rightarrow>
     (case create_or_update_index sdk index_client index of
        Inr _ \<Rightarrow> Inr (''SIMPLE INDEX created: itpolicy-nist-index'', True)
      | Inl (Exception msg) \<Rightarrow> Inr (''Index exists: '' @ take 100 msg @ ''...'', True)
      | Inl (BaseException msg) \<Rightarrow> Inl (BaseException msg))))))"

section \<open>Notions the properties are stated with\<close>

text \<open>
  The \<open>content\<close> string of a record, its trimmed length (\<open>len(item['content'].strip())\<close>),
  and the test of line 30 that keeps a record.
\<close>

definition content_str :: "item \<Rightarrow> string" where
  "content_str r = (case r ''content'' of Some (PStr s) \<Rightarrow> s | _ \<Rightarrow> [])"

definition trimmed_len :: "item \<Rightarrow> int" where
  "trimmed_len r = int (length (strip (content_str r)))"

definition passes_filter :: "item \<Rightarrow> bool" where
  "passes_filter r = (20 \<le> trimmed_len r)"

text \<open>
  What the chunker needs of a Content Record: a string under \<open>content\<close>, and the keys
  \<open>page\<close> and \<open>type\<close>. The Content Record of the data model (a type, a content string,
  an integer page) is one.
\<close>

definition well_formed :: "item \<Rightarrow> bool" where
  "well_formed r =
     ((case r ''content'' of Some (PStr s) \<Rightarrow> True | _ \<Rightarrow> False) \<and>
      r ''page'' \<noteq> None \<and> r ''type'' \<noteq> None)"

text \<open>
  The constituent records of the chunks: the loop of \<open>semantic_chunking\<close> again, keeping
  the accumulator itself, where the code builds a chunk from it (lines 36 and 51). The
  arguments are \<open>target_chars\<close>, \<open>current_chunk\<close>, \<open>current_length\<close> and the records
  still to come.
\<close>

fun groups_from :: "int \<Rightarrow> item list \<Rightarrow> int \<Rightarrow> item list \<Rightarrow> item list list" where
  "groups_from T cur n [] = (if cur \<noteq> [] then [cur] else [])"
| "groups_from T cur n (r # rs) =
     (if trimmed_len r < 20 then groups_from T cur n rs
      else if n + trimmed_len r > T \<and> cur \<noteq> [] then cur # groups_from T [r] (trimmed_len r) rs
      else groups_from T (cur @ [r]) (n + trimmed_len r) rs)"

definition constituents :: "item list \<Rightarrow> int \<Rightarrow> item list list" where
  "constituents rs T = groups_from T [] 0 rs"

text \<open>The \<open>". "\<close>-join of the contents of a group of records, as they are (not trimmed).\<close>

definition joined :: "item list \<Rightarrow> string" where
  "joined g = str_join ''. '' (map content_str g)"

text \<open>
  The bound on a chunk's records: the sum of their trimmed lengths is at most
  \<open>target_chars\<close>, or the chunk is one record that is longer than \<open>target_chars\<close> by itself.
\<close>

definition within_target :: "int \<Rightarrow> item list \<Rightarrow> bool" where
  "within_target T g =
     (sum_list (map trimmed_len g) \<le> T \<or> (length g = 1 \<and> T < trimmed_len (hd g)))"

text \<open>The chunk of a group of well-formed records, and the chunks of a list of groups.\<close>

definition chunk_of :: "string \<Rightarrow> item list \<Rightarrow> chunk" where
  "chunk_of uid g =
     \<lparr>chunk_id = uid, chunk_content = joined g,
      chunk_page = the (hd g ''page''), chunk_type = the (hd g ''type''),
      doc_name = ''support.pdf''\<rparr>"

fun chunks_of :: "(nat \<Rightarrow> string) \<Rightarrow> nat \<Rightarrow> item list list \<Rightarrow> chunk list" where
  "chunks_of u k [] = []"
| "chunks_of u k (g # gs) = chunk_of (u k) g # chunks_of u (Suc k) gs"

section \<open>Example data\<close>

definition example_uuid4 :: "nat \<Rightarrow> string" where
  "example_uuid4 n = ''uuid-'' @ str_nat n"

definition text_record :: "string \<Rightarrow> int \<Rightarrow> item" where
  "text_record c p = [''type'' \<mapsto> PStr ''paragraph'', ''content'' \<mapsto> PStr c, ''page'' \<mapsto> PInt p]"

definition filler :: "nat \<Rightarrow> string" where
  "filler n = replicate n CHR ''x''"

definition example_records :: "item list" where
  "example_records =
     [text_record (filler 30) 1, text_record ''short'' 1, text_record (filler 40) 2,
      text_record (filler 950) 3]"

definition long_records :: "item list" where
  "long_records = [text_record (filler 30) 1, text_record (filler 1200) 2, text_record (filler 40) 3]"


definition padded_text :: string where
  "padded_text = ''  '' @ filler 30 @ '' ''"

definition padded_records :: "item list" where
  "padded_records = [text_record padded_text 1, text_record (filler 40) 1]"

definition paragraphs_page :: di_page where
  "paragraphs_page =
     \<lparr>page_number = Has 1,
      paragraphs = Has [\<lparr>para_content = Some ''Access control policy''\<rparr>],
      lines = Absent,
      tables = Absent,
      words = Has [\<lparr>word_content = ''Access''\<rparr>, \<lparr>word_content = ''control''\<rparr>,
                    \<lparr>word_content = ''policy''\<rparr>]\<rparr>"

definition lines_page :: di_page where
  "lines_page =
     \<lparr>page_number = Has 2,
      paragraphs = Absent,
      lines = Has [\<lparr>line_content = Some ''Audit and accountability'', line_confidence = Absent\<rparr>],
      tables = Absent,
      words = Has [\<lparr>word_content = ''Audit''\<rparr>, \<lparr>word_content = ''and''\<rparr>,
                    \<lparr>word_content = ''accountability''\<rparr>]\<rparr>"

definition type_and_content :: "item \<Rightarrow> pyval option \<times> pyval option" where
  "type_and_content r = (r ''type'', r ''content'')"

text \<open>
  A library for the examples. As the Azure libraries do, its credential refuses a key that
  is not a string and its client an endpoint that is not one; the outcome of
  \<open>create_or_update_index\<close> is its argument.
\<close>

definition example_sdk ::
  "(raised + unit) \<Rightarrow> (string, string \<times> string, field_args, string \<times> field_args list) search_sdk"
  where
  "example_sdk outcome =
     \<lparr>AzureKeyCredential =
        (\<lambda>key. case key of None \<Rightarrow> Inl (Exception ''key must be a string.'') | Some k \<Rightarrow> Inr k),
      SearchIndexClient =
        (\<lambda>endpoint credential.
           case endpoint of
             None \<Rightarrow> Inl (Exception ''Endpoint URL must be a string.'')
           | Some e \<Rightarrow> Inr (e, credential)),
      SearchField = Inr,
      SearchIndex = (\<lambda>name field_list. Inr (name, field_list)),
      create_or_update_index = (\<lambda>client index. outcome)\<rparr>"

definition call_returns :: "raised + unit" where
  "call_returns = Inr ()"

definition call_forbidden :: "raised + unit" where
  "call_forbidden = Inl (Exception ''(403) Forbidden'')"

definition example_endpoint :: "string option" where
  "example_endpoint = Some ''https://search.example.net''"

definition many_paragraphs :: di_result where
  "many_paragraphs =
     \<lparr>pages = Some [\<lparr>page_number = Has 1,
                       paragraphs = Has (replicate 501 \<lparr>para_content = Some ''text''\<rparr>),
                       lines = Absent, tables = Absent, words = Absent\<rparr>]\<rparr>"


definition short_record :: item where
  "short_record = text_record ''fifteen chars..'' 1"

section \<open>The chunker on well-formed records\<close>

lemma as_strs_PStr: "as_strs (map PStr ss) = Inr ss"
  by (induction ss) auto

lemma py_join_PStr: "py_join sep (map PStr ss) = Inr (str_join sep ss)"
  by (simp add: py_join_def as_strs_PStr)

lemma getitem_content: "well_formed r \<Longrightarrow> getitem r ''content'' = Inr (PStr (content_str r))"
  by (auto simp: well_formed_def getitem_def content_str_def split: option.splits pyval.splits)

lemma getitems_content:
  "\<forall>r\<in>set g. well_formed r \<Longrightarrow> getitems g ''content'' = Inr (map PStr (map content_str g))"
  by (induction g) (auto simp: getitem_content)

lemma make_chunk_ok:
  assumes "g \<noteq> []" and "\<forall>r\<in>set g. well_formed r"
  shows "make_chunk uid g = Inr (chunk_of uid g)"
proof -
  obtain c0 g' where g: "g = c0 # g'" using assms(1) by (cases g) auto
  have wf: "well_formed c0" using assms(2) g by simp
  then obtain p t where pt: "c0 ''page'' = Some p" "c0 ''type'' = Some t"
    by (auto simp: well_formed_def)
  have first: "(case g of [] \<Rightarrow> Inl IndexError | c0 # _ \<Rightarrow> f c0) = f c0"
    for f :: "item \<Rightarrow> py_error + chunk"
    by (simp add: g)
  have "make_chunk uid g =
      (case getitem c0 ''page'' of Inl e \<Rightarrow> Inl e | Inr p \<Rightarrow>
        (case getitem c0 ''type'' of Inl e \<Rightarrow> Inl e | Inr t \<Rightarrow>
          Inr \<lparr>chunk_id = uid, chunk_content = str_join ''. '' (map content_str g),
              chunk_page = p, chunk_type = t, doc_name = ''support.pdf''\<rparr>))"
    by (simp only: make_chunk_def getitems_content[OF assms(2)] sum.case py_join_PStr first)
  also have "\<dots> = Inr (chunk_of uid g)"
    by (simp add: getitem_def pt chunk_of_def joined_def g)
  finally show ?thesis .
qed

lemma chunk_step_ok:
  assumes "well_formed r" and "\<forall>x\<in>set (current_chunk st). well_formed x"
  shows "chunk_step u T st r =
     Inr (if trimmed_len r < 20 then st
          else if current_length st + trimmed_len r > T \<and> current_chunk st \<noteq> [] then
            st\<lparr>chunks := chunks st @ [chunk_of (u (uuid_calls st)) (current_chunk st)],
               current_chunk := [r], current_length := trimmed_len r,
               uuid_calls := Suc (uuid_calls st)\<rparr>
          else st\<lparr>current_chunk := current_chunk st @ [r],
                  current_length := current_length st + trimmed_len r\<rparr>)"
  using assms
  by (simp add: chunk_step_def getitem_content py_strip_def trimmed_len_def make_chunk_ok Let_def)

lemma loop_link:
  assumes "\<forall>r\<in>set rs. well_formed r" and "\<forall>x\<in>set (current_chunk st). well_formed x"
    and "chunks st = cs" "current_chunk st = cur" "current_length st = n" "uuid_calls st = k"
  shows "(case chunk_loop u T st rs of Inl e \<Rightarrow> Inl e | Inr st' \<Rightarrow> final_chunk u st')
         = Inr (cs @ chunks_of u k (groups_from T cur n rs))"
  using assms
proof (induction rs arbitrary: st cs cur n k)
  case Nil
  then show ?case by (simp add: final_chunk_def make_chunk_ok)
next
  case (Cons r rs)
  have wr: "well_formed r" using Cons.prems(1) by simp
  have wrs: "\<forall>r\<in>set rs. well_formed r" using Cons.prems(1) by simp
  note step = chunk_step_ok[OF wr Cons.prems(2), of u T]
  show ?case
  proof (cases "trimmed_len r < 20")
    case True
    have s: "chunk_step u T st r = Inr st" using step True by simp
    have "(case chunk_loop u T st rs of Inl e \<Rightarrow> Inl e | Inr st' \<Rightarrow> final_chunk u st')
         = Inr (cs @ chunks_of u k (groups_from T cur n rs))"
      by (rule Cons.IH[OF wrs Cons.prems(2-6)])
    then show ?thesis using s True by simp
  next
    case False
    show ?thesis
    proof (cases "current_length st + trimmed_len r > T \<and> current_chunk st \<noteq> []")
      case True
      let ?st = "st\<lparr>chunks := chunks st @ [chunk_of (u (uuid_calls st)) (current_chunk st)],
               current_chunk := [r], current_length := trimmed_len r,
               uuid_calls := Suc (uuid_calls st)\<rparr>"
      have s: "chunk_step u T st r = Inr ?st" using step False True by simp
      have "(case chunk_loop u T ?st rs of Inl e \<Rightarrow> Inl e | Inr st' \<Rightarrow> final_chunk u st')
         = Inr ((cs @ [chunk_of (u k) cur]) @
                chunks_of u (Suc k) (groups_from T [r] (trimmed_len r) rs))"
        by (rule Cons.IH[OF wrs]) (use wr Cons.prems in simp_all)
      then show ?thesis using s False True Cons.prems(3-6) by simp
    next
      case F2: False
      let ?st = "st\<lparr>current_chunk := current_chunk st @ [r],
                  current_length := current_length st + trimmed_len r\<rparr>"
      have s: "chunk_step u T st r = Inr ?st" using step False F2 by auto
      have "(case chunk_loop u T ?st rs of Inl e \<Rightarrow> Inl e | Inr st' \<Rightarrow> final_chunk u st')
         = Inr (cs @ chunks_of u k (groups_from T (cur @ [r]) (n + trimmed_len r) rs))"
        by (rule Cons.IH[OF wrs]) (use wr Cons.prems in auto)
      then show ?thesis using s False F2 Cons.prems(3-6) by auto
    qed
  qed
qed

lemma semantic_chunking_link:
  assumes "\<forall>r\<in>set rs. well_formed r"
  shows "semantic_chunking u rs T = Inr (chunks_of u 0 (constituents rs T))"
  using loop_link[OF assms, of initial_state "[]" "[]" 0 0 u T]
  by (simp add: semantic_chunking_def constituents_def initial_state_def)

lemma chunks_of_length: "length (chunks_of u k gs) = length gs"
  by (induction gs arbitrary: k) auto

lemma chunks_of_content: "map chunk_content (chunks_of u k gs) = map joined gs"
  by (induction gs arbitrary: k) (auto simp: chunk_of_def)

lemma chunks_of_no_id:
  "map (chunk_id_update (\<lambda>_. [])) (chunks_of u k gs) =
   map (chunk_id_update (\<lambda>_. [])) (chunks_of u' k' gs)"
  by (induction gs arbitrary: k k') (auto simp: chunk_of_def)

section \<open>The constituent records\<close>

lemma groups_concat: "concat (groups_from T cur n rs) = cur @ filter passes_filter rs"
  by (induction rs arbitrary: cur n) (auto simp: passes_filter_def)

lemma groups_nonempty: "[] \<notin> set (groups_from T cur n rs)"
  by (induction rs arbitrary: cur n) auto

lemma constituents_concat: "concat (constituents rs T) = filter passes_filter rs"
  by (simp add: constituents_def groups_concat)

lemma constituents_nonempty: "[] \<notin> set (constituents rs T)"
  by (simp add: constituents_def groups_nonempty)

lemma constituents_members:
  assumes "g \<in> set (constituents rs T)" "r \<in> set g"
  shows "r \<in> set rs \<and> 20 \<le> trimmed_len r"
proof -
  have "r \<in> set (concat (constituents rs T))" using assms by auto
  then show ?thesis by (simp add: constituents_concat passes_filter_def)
qed

lemma within_target_single: "within_target T [r]"
  by (auto simp: within_target_def)

lemma within_target_sum: "sum_list (map trimmed_len g) \<le> T \<Longrightarrow> within_target T g"
  by (simp add: within_target_def)

lemma groups_within_target:
  assumes "n = sum_list (map trimmed_len cur)" and "cur = [] \<or> within_target T cur"
  shows "\<forall>g\<in>set (groups_from T cur n rs). within_target T g"
  using assms
proof (induction rs arbitrary: cur n)
  case Nil
  then show ?case by auto
next
  case (Cons r rs)
  show ?case
  proof (cases "trimmed_len r < 20")
    case True
    have "\<forall>g\<in>set (groups_from T cur n rs). within_target T g"
      using Cons.prems by (rule Cons.IH)
    then show ?thesis using True by simp
  next
    case False
    show ?thesis
    proof (cases "n + trimmed_len r > T \<and> cur \<noteq> []")
      case True
      have "\<forall>g\<in>set (groups_from T [r] (trimmed_len r) rs). within_target T g"
      proof (rule Cons.IH)
        show "trimmed_len r = sum_list (map trimmed_len [r])" by simp
        show "[r] = [] \<or> within_target T [r]" by (simp add: within_target_single)
      qed
      moreover have "within_target T cur" using True Cons.prems(2) by blast
      ultimately show ?thesis using False True by simp
    next
      case F2: False
      have wt: "within_target T (cur @ [r])"
      proof (cases "cur = []")
        case True
        then show ?thesis by (simp add: within_target_single)
      next
        case False
        with F2 have "n + trimmed_len r \<le> T" by simp
        then show ?thesis using Cons.prems(1) by (intro within_target_sum) simp
      qed
      have "\<forall>g\<in>set (groups_from T (cur @ [r]) (n + trimmed_len r) rs). within_target T g"
      proof (rule Cons.IH)
        show "n + trimmed_len r = sum_list (map trimmed_len (cur @ [r]))"
          using Cons.prems(1) by simp
        show "cur @ [r] = [] \<or> within_target T (cur @ [r])" using wt by simp
      qed
      then show ?thesis using False F2 by auto
    qed
  qed
qed

lemma constituents_within_target: "\<forall>g\<in>set (constituents rs T). within_target T g"
  unfolding constituents_def by (rule groups_within_target) simp_all

lemma over_target_alone:
  assumes "g \<in> set (constituents rs T)" "r \<in> set g" "T < trimmed_len r"
  shows "g = [r]"
proof -
  have wt: "within_target T g" using constituents_within_target assms(1) by blast
  have pos: "\<forall>x\<in>set g. 20 \<le> trimmed_len x" using constituents_members assms(1) by blast
  have "trimmed_len r \<le> sum_list (map trimmed_len g)"
    using assms(2) pos
  proof (induction g)
    case Nil
    then show ?case by simp
  next
    case (Cons a g)
    have "0 \<le> sum_list (map trimmed_len g)"
      using Cons.prems(2) by (intro sum_list_nonneg) auto
    then show ?case using Cons by (cases "r = a") auto
  qed
  then have "\<not> sum_list (map trimmed_len g) \<le> T" using assms(3) by simp
  with wt obtain x where "g = [x]"
    by (cases g) (auto simp: within_target_def)
  with assms(2) show ?thesis by simp
qed

section \<open>Strings\<close>

lemma strip_length: "length (strip s) \<le> length s"
proof -
  have "length (dropWhile P xs) \<le> length xs" for P and xs :: string
    by (induction xs) auto
  then show ?thesis
    unfolding strip_def by (metis length_rev order_trans)
qed

lemma str_join_length: "ss \<noteq> [] \<Longrightarrow> length (hd ss) \<le> length (str_join sep ss)"
  by (induction sep ss rule: str_join.induct) auto

lemma joined_length:
  assumes "g \<noteq> []" and "\<forall>r\<in>set g. 20 \<le> trimmed_len r"
  shows "20 \<le> length (joined g)"
proof -
  obtain r g' where g: "g = r # g'" using assms(1) by (cases g) auto
  have "20 \<le> trimmed_len r" using assms(2) g by simp
  then have "20 \<le> length (content_str r)"
    using strip_length[of "content_str r"] by (simp add: trimmed_len_def)
  moreover have "length (content_str r) \<le> length (joined g)"
    using str_join_length[of "map content_str g" "''. ''"] by (simp add: joined_def g)
  ultimately show ?thesis by linarith
qed

lemma dropWhile_all: "\<forall>c\<in>set a. P c \<Longrightarrow> dropWhile P (a @ ys) = dropWhile P ys"
  by (induction a) auto

lemma dropWhile_stop: "ys \<noteq> [] \<Longrightarrow> \<not> P (hd ys) \<Longrightarrow> dropWhile P (ys @ zs) = ys @ zs"
  by (cases ys) auto

lemma strip_padded:
  assumes "\<forall>c\<in>set a. isspace c" "\<forall>c\<in>set b. isspace c"
    and "s \<noteq> []" "\<not> isspace (hd s)" "\<not> isspace (last s)"
  shows "strip (a @ s @ b) = s"
proof -
  have 1: "dropWhile isspace (a @ s @ b) = s @ b"
    using dropWhile_all[OF assms(1), of "s @ b"] dropWhile_stop[of s isspace b] assms(3,4) by simp
  have rb: "\<forall>c\<in>set (rev b). isspace c" using assms(2) by simp
  have rs: "rev s \<noteq> []" "\<not> isspace (hd (rev s))"
    using assms(3,5) by (simp_all add: hd_rev)
  have 2: "dropWhile isspace (rev b @ rev s) = rev s"
    using dropWhile_all[OF rb, of "rev s"] dropWhile_stop[of "rev s" isspace "[]"] rs by simp
  show ?thesis by (simp add: strip_def 1 2)
qed

lemma strip_filler: "strip (filler n) = filler n"
proof (cases n)
  case 0
  then show ?thesis by (simp add: strip_def filler_def)
next
  case (Suc m)
  have ns: "\<not> isspace CHR ''x''" by (simp add: isspace_def)
  have "strip ([] @ filler n @ []) = filler n"
    by (rule strip_padded) (simp_all add: filler_def Suc ns del: replicate.simps)
  then show ?thesis by simp
qed

section \<open>The examples\<close>

lemma well_formed_text_record: "well_formed (text_record c p)"
  by (simp add: well_formed_def text_record_def)

lemma content_str_text_record: "content_str (text_record c p) = c"
  by (simp add: content_str_def text_record_def)

lemma trimmed_len_filler: "trimmed_len (text_record (filler n) p) = int n"
  by (simp add: trimmed_len_def content_str_text_record strip_filler) (simp add: filler_def)

lemma trimmed_len_short: "trimmed_len (text_record ''short'' p) = 5"
  by (simp add: trimmed_len_def content_str_text_record strip_def isspace_def)

lemma constituents_example:
  "constituents example_records 1000 =
     [[text_record (filler 30) 1, text_record (filler 40) 2], [text_record (filler 950) 3]]"
  by (simp add: constituents_def example_records_def trimmed_len_filler trimmed_len_short)

lemma constituents_long:
  "constituents long_records 1000 =
     [[text_record (filler 30) 1], [text_record (filler 1200) 2], [text_record (filler 40) 3]]"
  by (simp add: constituents_def long_records_def trimmed_len_filler)

lemma well_formed_example: "\<forall>r\<in>set example_records. well_formed r"
  by (simp add: example_records_def well_formed_text_record)

lemma well_formed_long: "\<forall>r\<in>set long_records. well_formed r"
  by (simp add: long_records_def well_formed_text_record)


lemma trimmed_len_fifteen: "trimmed_len short_record = 15"
  by (simp add: short_record_def trimmed_len_def content_str_text_record strip_def isspace_def)


section \<open>The claims about the chunker\<close>

text \<open>
  C1. On well-formed records the chunker returns chunks whose contents are the joins of
  the constituent groups, and the groups, one after the other, are exactly the records
  of the input whose trimmed length is at least 20, in the order of the input: each such
  record is in exactly one chunk, and a record whose trimmed length is below 20 is in none.
\<close>

theorem records_in_exactly_one_chunk:
  assumes "\<forall>r\<in>set rs. well_formed r"
  shows "\<exists>cs. semantic_chunking uuid4 rs T = Inr cs \<and>
           map chunk_content cs = map joined (constituents rs T) \<and>
           concat (constituents rs T) = filter (\<lambda>r. 20 \<le> trimmed_len r) rs"
proof -
  have "concat (constituents rs T) = filter (\<lambda>r. 20 \<le> trimmed_len r) rs"
    using constituents_concat[of rs T] by (simp add: passes_filter_def[abs_def])
  then show ?thesis
    by (simp add: semantic_chunking_link[OF assms] chunks_of_content)
qed

theorem records_in_exactly_one_chunk_witness:
  "\<exists>cs. semantic_chunking example_uuid4 example_records 1000 = Inr cs \<and>
        map chunk_content cs = [filler 30 @ ''. '' @ filler 40, filler 950] \<and>
        concat (constituents example_records 1000) =
          [text_record (filler 30) 1, text_record (filler 40) 2, text_record (filler 950) 3]"
proof -
  from records_in_exactly_one_chunk[OF well_formed_example, of example_uuid4 1000]
  obtain cs where cs: "semantic_chunking example_uuid4 example_records 1000 = Inr cs"
    "map chunk_content cs = map joined (constituents example_records 1000)"
    by blast
  have "map chunk_content cs = [filler 30 @ ''. '' @ filler 40, filler 950]"
    by (simp add: cs(2) constituents_example joined_def content_str_text_record)
  then show ?thesis using cs(1) by (simp add: constituents_example)
qed

text \<open>
  C2. For every \<open>target_chars\<close>, the trimmed lengths of the records of a chunk sum to at
  most \<open>target_chars\<close>, unless the chunk is a single record that is longer than
  \<open>target_chars\<close> by itself.
\<close>

theorem chunk_length_within_target:
  assumes "\<forall>r\<in>set rs. well_formed r"
  shows "\<exists>cs. semantic_chunking uuid4 rs T = Inr cs \<and>
           map chunk_content cs = map joined (constituents rs T) \<and>
           (\<forall>g\<in>set (constituents rs T).
              sum_list (map trimmed_len g) \<le> T \<or> (\<exists>r. g = [r] \<and> T < trimmed_len r))"
proof -
  have "sum_list (map trimmed_len g) \<le> T \<or> (\<exists>r. g = [r] \<and> T < trimmed_len r)"
    if "g \<in> set (constituents rs T)" for g
  proof -
    have "within_target T g" using constituents_within_target that by blast
    then show ?thesis by (cases g) (auto simp: within_target_def)
  qed
  then show ?thesis
    by (simp add: semantic_chunking_link[OF assms] chunks_of_content)
qed

theorem chunk_length_within_target_witness:
  "\<exists>cs. semantic_chunking example_uuid4 long_records 1000 = Inr cs \<and>
        map chunk_content cs = [filler 30, filler 1200, filler 40] \<and>
        map (\<lambda>g. sum_list (map trimmed_len g)) (constituents long_records 1000) = [30, 1200, 40]"
proof -
  from chunk_length_within_target[OF well_formed_long, of example_uuid4 1000]
  obtain cs where cs: "semantic_chunking example_uuid4 long_records 1000 = Inr cs"
    "map chunk_content cs = map joined (constituents long_records 1000)"
    by blast
  have "map chunk_content cs = [filler 30, filler 1200, filler 40]"
    by (simp add: cs(2) constituents_long joined_def content_str_text_record)
  then show ?thesis using cs(1) by (simp add: constituents_long trimmed_len_filler)
qed

lemma make_chunk_doc_name: "make_chunk uid g = Inr c \<Longrightarrow> doc_name c = ''support.pdf''"
  by (auto simp: make_chunk_def split: sum.splits list.splits)

lemma chunk_step_doc_name:
  assumes "chunk_step u T st r = Inr st'" and "\<forall>c\<in>set (chunks st). doc_name c = ''support.pdf''"
  shows "\<forall>c\<in>set (chunks st'). doc_name c = ''support.pdf''"
  using assms
  by (auto simp: chunk_step_def Let_def split: sum.splits if_splits dest: make_chunk_doc_name)

lemma chunk_loop_doc_name:
  assumes "chunk_loop u T st rs = Inr st'" and "\<forall>c\<in>set (chunks st). doc_name c = ''support.pdf''"
  shows "\<forall>c\<in>set (chunks st'). doc_name c = ''support.pdf''"
  using assms
proof (induction rs arbitrary: st)
  case Nil
  then show ?case by simp
next
  case (Cons r rs)
  from Cons.prems(1) obtain st1 where s1: "chunk_step u T st r = Inr st1"
    and l: "chunk_loop u T st1 rs = Inr st'"
    by (auto split: sum.splits)
  have "\<forall>c\<in>set (chunks st1). doc_name c = ''support.pdf''"
    using chunk_step_doc_name[OF s1 Cons.prems(2)] .
  then show ?case using Cons.IH[OF l] by blast
qed

text \<open>
  C3, as the code has it. Whenever the chunker returns, every chunk has the \<open>doc_name\<close>
  \<open>support.pdf\<close>: the string is written in the two dictionary literals, and the function
  has no argument for it.
\<close>

theorem doc_name_is_hard_coded:
  assumes "semantic_chunking uuid4 rs T = Inr cs"
  shows "\<forall>c\<in>set cs. doc_name c = ''support.pdf''"
proof -
  from assms obtain st where l: "chunk_loop uuid4 T initial_state rs = Inr st"
    and f: "final_chunk uuid4 st = Inr cs"
    by (auto simp: semantic_chunking_def split: sum.splits)
  have "\<forall>c\<in>set (chunks st). doc_name c = ''support.pdf''"
    by (rule chunk_loop_doc_name[OF l]) (simp add: initial_state_def)
  then show ?thesis using f
    by (auto simp: final_chunk_def split: if_splits sum.splits dest: make_chunk_doc_name)
qed

lemma single_record_chunk:
  "semantic_chunking example_uuid4 [text_record (filler 30) 1] 1000 =
     Inr [\<lparr>chunk_id = ''uuid-0'', chunk_content = filler 30, chunk_page = PInt 1,
           chunk_type = PStr ''paragraph'', doc_name = ''support.pdf''\<rparr>]"
proof -
  have "semantic_chunking example_uuid4 [text_record (filler 30) 1] 1000 =
      Inr (chunks_of example_uuid4 0 (constituents [text_record (filler 30) 1] 1000))"
    by (rule semantic_chunking_link) (simp add: well_formed_text_record)
  then show ?thesis
    by (simp add: constituents_def trimmed_len_filler chunk_of_def joined_def
        content_str_text_record example_uuid4_def str_nat.simps digit_char_def)
      (simp add: text_record_def)
qed

text \<open>Three chunks, each with the fixed name.\<close>

theorem doc_name_is_hard_coded_witness:
  "\<exists>cs. semantic_chunking example_uuid4 long_records 1000 = Inr cs \<and>
        map doc_name cs = replicate 3 ''support.pdf''"
proof -
  have run: "semantic_chunking example_uuid4 long_records 1000 =
      Inr (chunks_of example_uuid4 0 (constituents long_records 1000))"
    by (rule semantic_chunking_link[OF well_formed_long])
  let ?cs = "chunks_of example_uuid4 0 (constituents long_records 1000)"
  have len: "length ?cs = 3" by (simp add: chunks_of_length constituents_long)
  have "\<forall>c\<in>set ?cs. doc_name c = ''support.pdf''"
    by (rule doc_name_is_hard_coded[OF run])
  then have "map doc_name ?cs = map (\<lambda>_. ''support.pdf'') ?cs" by (intro map_cong) auto
  then have "map doc_name ?cs = replicate 3 ''support.pdf''"
    by (simp only: map_replicate_const len)
  then show ?thesis using run by blast
qed

text \<open>
  C3 as stated fails: the arguments of the chunker are the records and \<open>target_chars\<close>,
  and a caller who chunks the document \<open>nist-sp800-53.pdf\<close>, as the script does, gets
  chunks named \<open>support.pdf\<close>.
\<close>

theorem doc_name_not_caller_supplied:
  "semantic_chunking example_uuid4 [text_record (filler 30) 1] 1000 =
     Inr [\<lparr>chunk_id = ''uuid-0'', chunk_content = filler 30, chunk_page = PInt 1,
           chunk_type = PStr ''paragraph'', doc_name = ''support.pdf''\<rparr>] \<and>
   ''support.pdf'' \<noteq> ''nist-sp800-53.pdf''"
  using single_record_chunk by simp




text \<open>
  C5, as the code has it. On well-formed records: a record that passes the fragment
  filter (trimmed length at least 20) and is longer than \<open>target_chars\<close> is a chunk of
  its own; no chunk holds a record longer than \<open>target_chars\<close> together with another
  one; and the chunker, given one record that passes the filter, returns one chunk whose
  content is the content of the record, whole (so for one record of trimmed length 1200
  and \<open>target_chars = 1000\<close>).
\<close>

theorem long_record_is_its_own_chunk:
  assumes "\<forall>r\<in>set rs. well_formed r"
  shows "\<exists>cs. semantic_chunking uuid4 rs T = Inr cs \<and>
           map chunk_content cs = map joined (constituents rs T) \<and>
           (\<forall>r\<in>set rs. 20 \<le> trimmed_len r \<and> T < trimmed_len r \<longrightarrow>
              [r] \<in> set (constituents rs T)) \<and>
           (\<forall>g\<in>set (constituents rs T). \<forall>r\<in>set g. T < trimmed_len r \<longrightarrow> g = [r]) \<and>
           (\<forall>r. rs = [r] \<and> 20 \<le> trimmed_len r \<longrightarrow> map chunk_content cs = [content_str r])"
proof (intro exI[of _ "chunks_of uuid4 0 (constituents rs T)"] conjI)
  show "semantic_chunking uuid4 rs T = Inr (chunks_of uuid4 0 (constituents rs T))"
    by (rule semantic_chunking_link[OF assms])
  show "map chunk_content (chunks_of uuid4 0 (constituents rs T)) = map joined (constituents rs T)"
    by (rule chunks_of_content)
  show "\<forall>g\<in>set (constituents rs T). \<forall>r\<in>set g. T < trimmed_len r \<longrightarrow> g = [r]"
    using over_target_alone by blast
  show "\<forall>r\<in>set rs. 20 \<le> trimmed_len r \<and> T < trimmed_len r \<longrightarrow> [r] \<in> set (constituents rs T)"
  proof (intro ballI impI)
    fix r
    assume r: "r \<in> set rs" and len: "20 \<le> trimmed_len r \<and> T < trimmed_len r"
    have "r \<in> set (concat (constituents rs T))"
      using r len by (simp add: constituents_concat passes_filter_def)
    then obtain g where g: "g \<in> set (constituents rs T)" "r \<in> set g" by auto
    then have "g = [r]" using len over_target_alone by blast
    then show "[r] \<in> set (constituents rs T)" using g(1) by simp
  qed
  show "\<forall>r. rs = [r] \<and> 20 \<le> trimmed_len r \<longrightarrow>
          map chunk_content (chunks_of uuid4 0 (constituents rs T)) = [content_str r]"
  proof (intro allI impI)
    fix r
    assume a: "rs = [r] \<and> 20 \<le> trimmed_len r"
    then have "constituents rs T = [[r]]" by (simp add: constituents_def)
    then show "map chunk_content (chunks_of uuid4 0 (constituents rs T)) = [content_str r]"
      by (simp add: chunk_of_def joined_def)
  qed
qed

theorem long_record_is_its_own_chunk_witness:
  "\<exists>cs. semantic_chunking example_uuid4 [text_record (filler 1200) 1] 1000 = Inr cs \<and>
        map chunk_content cs = [filler 1200]"
proof -
  let ?r = "text_record (filler 1200) 1"
  have wf: "\<forall>r\<in>set [?r]. well_formed r"
    by (simp add: well_formed_text_record)
  have len: "[?r] = [?r] \<and> 20 \<le> trimmed_len ?r"
    by (simp add: trimmed_len_filler)
  from long_record_is_its_own_chunk[OF wf, of example_uuid4 1000]
  obtain cs where cs: "semantic_chunking example_uuid4 [?r] 1000 = Inr cs"
    and one: "\<forall>r. [?r] = [r] \<and> 20 \<le> trimmed_len r \<longrightarrow> map chunk_content cs = [content_str r]"
    by (elim exE conjE)
  from one have "[?r] = [?r] \<and> 20 \<le> trimmed_len ?r \<longrightarrow> map chunk_content cs = [content_str ?r]"
    by (rule allE)
  with len have "map chunk_content cs = [content_str ?r]" by (rule rev_mp)
  then have "map chunk_content cs = [filler 1200]"
    by (simp only: content_str_text_record)
  with cs have "semantic_chunking example_uuid4 [?r] 1000 = Inr cs \<and>
        map chunk_content cs = [filler 1200]" by (rule conjI)
  then show ?thesis by (rule exI)
qed

text \<open>
  C5 as stated fails when \<open>target_chars\<close> is below 19: a record of trimmed length 15 is
  longer than \<open>target_chars = 10\<close>, and it is discarded as a fragment, so there is no
  chunk at all.
\<close>

theorem short_record_over_target_is_dropped:
  "trimmed_len short_record = 15 \<and> (10::int) < 15 \<and>
   semantic_chunking example_uuid4 [short_record] 10 = Inr []"
proof -
  have "semantic_chunking example_uuid4 [short_record] 10 =
      Inr (chunks_of example_uuid4 0 (constituents [short_record] 10))"
    by (rule semantic_chunking_link) (simp add: short_record_def well_formed_text_record)
  then show ?thesis
    by (simp add: constituents_def trimmed_len_fifteen)
qed

text \<open>
  C6. On well-formed records the chunker returns a list of chunks and raises nothing; what
  it returns depends on the generator of the ids in the ids only; and on the empty list
  it returns the empty list.
\<close>

theorem semantic_chunking_total:
  assumes "\<forall>r\<in>set rs. well_formed r"
  shows "(\<exists>cs cs'. semantic_chunking uuid4 rs T = Inr cs \<and>
            semantic_chunking uuid4' rs T = Inr cs' \<and>
            map (chunk_id_update (\<lambda>_. [])) cs = map (chunk_id_update (\<lambda>_. [])) cs') \<and>
         semantic_chunking uuid4 [] T = Inr []"
proof (intro conjI exI)
  show "semantic_chunking uuid4 [] T = Inr []"
    by (simp add: semantic_chunking_def initial_state_def final_chunk_def)
  show "semantic_chunking uuid4 rs T = Inr (chunks_of uuid4 0 (constituents rs T))"
    by (rule semantic_chunking_link[OF assms])
  show "semantic_chunking uuid4' rs T = Inr (chunks_of uuid4' 0 (constituents rs T))"
    by (rule semantic_chunking_link[OF assms])
  show "map (chunk_id_update (\<lambda>_. [])) (chunks_of uuid4 0 (constituents rs T)) =
        map (chunk_id_update (\<lambda>_. [])) (chunks_of uuid4' 0 (constituents rs T))"
    by (rule chunks_of_no_id)
qed

theorem semantic_chunking_total_witness:
  "(\<exists>cs. semantic_chunking example_uuid4 example_records 1000 = Inr cs) \<and>
   semantic_chunking example_uuid4 [] 1000 = Inr []"
  using semantic_chunking_total[OF well_formed_example, of example_uuid4 1000 example_uuid4]
  by blast

lemma trimmed_len_padded: "trimmed_len (text_record padded_text p) = 30"
proof -
  have sp: "isspace CHR '' ''" and nx: "\<not> isspace CHR ''x''" by (simp_all add: isspace_def)
  have "strip (''  '' @ filler 30 @ '' '') = filler 30"
    by (rule strip_padded) (simp_all add: sp nx filler_def)
  then have "trimmed_len (text_record padded_text p) = int (length (filler 30))"
    by (simp only: trimmed_len_def content_str_text_record padded_text_def)
  then show ?thesis by (simp add: filler_def)
qed

lemma constituents_padded: "constituents padded_records 1000 = [padded_records]"
  by (simp add: constituents_def padded_records_def trimmed_len_padded trimmed_len_filler)

text \<open>
  C10. On well-formed records the content of every chunk is the \<open>". "\<close>-join of the
  \<open>content\<close> strings of its records as they are in the input, not trimmed; every chunk has
  at least one record, its records are records of the input, and its content has at
  least 20 characters.
\<close>

theorem chunk_content_is_untrimmed_join:
  assumes "\<forall>r\<in>set rs. well_formed r"
  shows "\<exists>cs. semantic_chunking uuid4 rs T = Inr cs \<and>
           map chunk_content cs =
             map (\<lambda>g. str_join ''. '' (map content_str g)) (constituents rs T) \<and>
           [] \<notin> set (constituents rs T) \<and>
           (\<forall>g\<in>set (constituents rs T). set g \<subseteq> set rs) \<and>
           (\<forall>c\<in>set cs. 20 \<le> length (chunk_content c))"
proof (intro exI[of _ "chunks_of uuid4 0 (constituents rs T)"] conjI)
  let ?gs = "constituents rs T"
  let ?cs = "chunks_of uuid4 0 ?gs"
  show "semantic_chunking uuid4 rs T = Inr ?cs"
    by (rule semantic_chunking_link[OF assms])
  show "map chunk_content ?cs = map (\<lambda>g. str_join ''. '' (map content_str g)) ?gs"
    by (simp add: chunks_of_content joined_def)
  show "[] \<notin> set ?gs" by (rule constituents_nonempty)
  show "\<forall>g\<in>set ?gs. set g \<subseteq> set rs"
    using constituents_members by blast
  show "\<forall>c\<in>set ?cs. 20 \<le> length (chunk_content c)"
  proof
    fix c
    assume "c \<in> set ?cs"
    then have "chunk_content c \<in> set (map chunk_content ?cs)" by simp
    then have "chunk_content c \<in> set (map joined ?gs)" by (simp only: chunks_of_content)
    then obtain g where g: "g \<in> set ?gs" and c: "chunk_content c = joined g" by auto
    have "20 \<le> length (joined g)"
    proof (rule joined_length)
      show "g \<noteq> []" using g constituents_nonempty by metis
      show "\<forall>r\<in>set g. 20 \<le> trimmed_len r" using g constituents_members by blast
    qed
    then show "20 \<le> length (chunk_content c)" by (simp add: c)
  qed
qed

theorem chunk_content_is_untrimmed_join_witness:
  "\<exists>cs. semantic_chunking example_uuid4 padded_records 1000 = Inr cs \<and>
        map chunk_content cs = [padded_text @ ''. '' @ filler 40]"
proof -
  have wf: "\<forall>r\<in>set padded_records. well_formed r"
    by (simp add: padded_records_def well_formed_text_record)
  from chunk_content_is_untrimmed_join[OF wf, of example_uuid4 1000]
  obtain cs where cs: "semantic_chunking example_uuid4 padded_records 1000 = Inr cs"
    and content: "map chunk_content cs =
       map (\<lambda>g. str_join ''. '' (map content_str g)) (constituents padded_records 1000)"
    by (elim exE conjE)
  have "map (\<lambda>g. str_join ''. '' (map content_str g)) (constituents padded_records 1000) =
        [padded_text @ ''. '' @ filler 40]"
    by (simp add: constituents_padded) (simp add: padded_records_def content_str_text_record)
  with content have "map chunk_content cs = [padded_text @ ''. '' @ filler 40]"
    by (rule trans)
  with cs have "semantic_chunking example_uuid4 padded_records 1000 = Inr cs \<and>
        map chunk_content cs = [padded_text @ ''. '' @ filler 40]" by (rule conjI)
  then show ?thesis by (rule exI)
qed

section \<open>The content normalizer\<close>

text \<open>A page yields a \<open>page_text\<close> record exactly when it has no tables and has words.\<close>

lemma page_text_iff:
  "(\<exists>r\<in>set (page_records page). r ''type'' = Some (PStr ''page_text'')) \<longleftrightarrow>
     \<not> present (tables page) \<and> present (words page)"
  by (auto simp: page_records_def paragraph_record_def line_record_def table_record_def
      page_text_record_def)

section \<open>The claims about extraction and indexing\<close>

text \<open>
  C7. The code at a page with paragraphs and words but no tables, and at a page with
  lines and words but no tables: each yields its paragraph or line record and a
  \<open>page_text\<close> record as well.
\<close>

theorem page_text_beside_paragraphs:
  "present (paragraphs paragraphs_page) \<and> present (lines lines_page) \<and>
   map type_and_content (analyze_document \<lparr>pages = Some [paragraphs_page, lines_page]\<rparr>) =
     [(Some (PStr ''paragraph''), Some (PStr ''Access control policy'')),
      (Some (PStr ''page_text''), Some (PStr ''Access control policy'')),
      (Some (PStr ''line''), Some (PStr ''Audit and accountability'')),
      (Some (PStr ''page_text''), Some (PStr ''Audit and accountability''))]"
  by (simp add: analyze_document_def or_empty_def attr_list_def page_records_def present_def
      paragraphs_page_def lines_page_def paragraph_record_def line_record_def
      page_text_record_def type_and_content_def page_num_of_def getattr_val_def)

lemma create_simple_index_built:
  assumes "AzureKeyCredential sdk search_key = Inr credential"
    and "SearchIndexClient sdk search_endpoint credential = Inr index_client"
    and "search_fields (SearchField sdk) simple_fields = Inr field_list"
    and "SearchIndex sdk ''itpolicy-nist-index'' field_list = Inr index"
  shows "create_simple_index sdk search_endpoint search_key =
     (case create_or_update_index sdk index_client index of
        Inr _ \<Rightarrow> Inr (''SIMPLE INDEX created: itpolicy-nist-index'', True)
      | Inl (Exception msg) \<Rightarrow> Inr (''Index exists: '' @ take 100 msg @ ''...'', True)
      | Inl (BaseException msg) \<Rightarrow> Inl (BaseException msg))"
  by (simp add: create_simple_index_def assms)

text \<open>
  C8, as the code has it. Once the credential, the client, the fields and the index are
  built: when \<open>create_or_update_index\<close> returns, the function returns \<open>True\<close>; when it
  raises an exception of class \<open>Exception\<close>, the function prints that the index exists,
  with the first 100 characters of the message, and returns \<open>True\<close>; when it raises a
  \<open>BaseException\<close> that is not an \<open>Exception\<close>, the function lets it through. An
  exception raised before the \<open>try\<close>, by the credential, the client, a field or the index,
  goes through as well.
\<close>

theorem create_simple_index_swallows_call_exception:
  "(\<forall>e. AzureKeyCredential sdk search_key = Inl e \<longrightarrow>
        create_simple_index sdk search_endpoint search_key = Inl e) \<and>
   (\<forall>credential e.
        AzureKeyCredential sdk search_key = Inr credential \<and>
        SearchIndexClient sdk search_endpoint credential = Inl e \<longrightarrow>
        create_simple_index sdk search_endpoint search_key = Inl e) \<and>
   (\<forall>credential index_client e.
        AzureKeyCredential sdk search_key = Inr credential \<and>
        SearchIndexClient sdk search_endpoint credential = Inr index_client \<and>
        search_fields (SearchField sdk) simple_fields = Inl e \<longrightarrow>
        create_simple_index sdk search_endpoint search_key = Inl e) \<and>
   (\<forall>credential index_client field_list e.
        AzureKeyCredential sdk search_key = Inr credential \<and>
        SearchIndexClient sdk search_endpoint credential = Inr index_client \<and>
        search_fields (SearchField sdk) simple_fields = Inr field_list \<and>
        SearchIndex sdk ''itpolicy-nist-index'' field_list = Inl e \<longrightarrow>
        create_simple_index sdk search_endpoint search_key = Inl e) \<and>
   (\<forall>credential index_client field_list index.
        AzureKeyCredential sdk search_key = Inr credential \<and>
        SearchIndexClient sdk search_endpoint credential = Inr index_client \<and>
        search_fields (SearchField sdk) simple_fields = Inr field_list \<and>
        SearchIndex sdk ''itpolicy-nist-index'' field_list = Inr index \<longrightarrow>
        (create_or_update_index sdk index_client index = Inr () \<longrightarrow>
           create_simple_index sdk search_endpoint search_key =
             Inr (''SIMPLE INDEX created: itpolicy-nist-index'', True)) \<and>
        (\<forall>msg. create_or_update_index sdk index_client index = Inl (Exception msg) \<longrightarrow>
           create_simple_index sdk search_endpoint search_key =
             Inr (''Index exists: '' @ take 100 msg @ ''...'', True)) \<and>
        (\<forall>msg. create_or_update_index sdk index_client index = Inl (BaseException msg) \<longrightarrow>
           create_simple_index sdk search_endpoint search_key = Inl (BaseException msg)))"
proof (intro conjI allI impI)
  fix credential index_client field_list index
  assume built: "AzureKeyCredential sdk search_key = Inr credential \<and>
        SearchIndexClient sdk search_endpoint credential = Inr index_client \<and>
        search_fields (SearchField sdk) simple_fields = Inr field_list \<and>
        SearchIndex sdk ''itpolicy-nist-index'' field_list = Inr index"
  note run = create_simple_index_built[of sdk search_key credential search_endpoint index_client
      field_list index]
  {
    assume "create_or_update_index sdk index_client index = Inr ()"
    then show "create_simple_index sdk search_endpoint search_key =
             Inr (''SIMPLE INDEX created: itpolicy-nist-index'', True)"
      using run built by simp
  }
  {
    fix msg
    assume "create_or_update_index sdk index_client index = Inl (Exception msg)"
    then show "create_simple_index sdk search_endpoint search_key =
             Inr (''Index exists: '' @ take 100 msg @ ''...'', True)"
      using run built by simp
  }
  {
    fix msg
    assume "create_or_update_index sdk index_client index = Inl (BaseException msg)"
    then show "create_simple_index sdk search_endpoint search_key = Inl (BaseException msg)"
      using run built by simp
  }
qed (simp_all add: create_simple_index_def)

lemma example_sdk_built:
  "AzureKeyCredential (example_sdk outcome) (Some k) = Inr k"
  "SearchIndexClient (example_sdk outcome) (Some e) k = Inr (e, k)"
  "search_fields (SearchField (example_sdk outcome)) simple_fields = Inr simple_fields"
  "SearchIndex (example_sdk outcome) n fs = Inr (n, fs)"
  "create_or_update_index (example_sdk outcome) c i = outcome"
  by (simp_all add: example_sdk_def simple_fields_def)

theorem create_simple_index_swallows_call_exception_witness:
  "create_simple_index (example_sdk call_forbidden) example_endpoint (Some ''secret'') =
     Inr (''Index exists: (403) Forbidden...'', True)"
proof -
  have "create_simple_index (example_sdk call_forbidden) example_endpoint (Some ''secret'') =
     Inr (''Index exists: '' @ take 100 ''(403) Forbidden'' @ ''...'', True)"
    using create_simple_index_swallows_call_exception[of "example_sdk call_forbidden"
        "Some ''secret''" example_endpoint]
    by (simp add: example_sdk_built example_endpoint_def call_forbidden_def)
  then show ?thesis by simp
qed

text \<open>
  C8 as stated fails: with \<open>AZURE_SEARCH_KEY\<close> not set, \<open>search_key\<close> is \<open>None\<close>, the
  credential raises in line 66, before the \<open>try\<close>, and the function lets the exception
  through and returns nothing.
\<close>

theorem create_simple_index_propagates_unset_key:
  "create_simple_index (example_sdk call_returns) example_endpoint None =
     Inl (Exception ''key must be a string.'')"
  by (simp add: create_simple_index_def example_sdk_def)

text \<open>
  C9. The array written to the output file is the first \<open>min N 500\<close> records of the
  \<open>N\<close> extracted ones, in their order; the function still returns all of them.
\<close>

theorem json_output_truncated:
  "json_written (ingest_file result) =
     take (min (length (analyze_document result)) 500) (analyze_document result) \<and>
   length (json_written (ingest_file result)) = min (length (analyze_document result)) 500 \<and>
   returned (ingest_file result) = analyze_document result"
  by (simp add: ingest_file_def Let_def min_def)

lemma analyze_many: "analyze_document many_paragraphs =
    replicate 501 [''type'' \<mapsto> PStr ''paragraph'', ''content'' \<mapsto> PStr ''text'', ''page'' \<mapsto> PInt 1]"
  by (simp add: analyze_document_def many_paragraphs_def or_empty_def attr_list_def
      page_records_def present_def paragraph_record_def page_num_of_def getattr_val_def)

theorem json_output_truncated_witness:
  "length (analyze_document many_paragraphs) = 501 \<and>
   json_written (ingest_file many_paragraphs) =
     replicate 500 [''type'' \<mapsto> PStr ''paragraph'', ''content'' \<mapsto> PStr ''text'', ''page'' \<mapsto> PInt 1]"
  using json_output_truncated[of many_paragraphs]
  by (simp add: analyze_many)

end
